theory Spec2Isabelle
  imports Complex_Main
begin

section \<open>The servo face tracker of face\_tracker\_servo.py\<close>

text \<open>
  The embedding follows \<^verbatim>\<open>src/face_tracker_servo.py\<close>. Python integers are \<open>int\<close>
  (\<^verbatim>\<open>//\<close> is floor division, which is \<open>div\<close> on \<open>int\<close>). Python floats are first
  idealised as exact \<open>real\<close> numbers: \<^verbatim>\<open>0.3\<close> is \<open>3/10\<close> and \<^verbatim>\<open>/\<close> is exact division.
  The bound on the step of one tick turns on the rounding of doubles; for it the same
  methods are given a second time with every operation rounded (\<open>set_angle_float\<close>,
  \<open>track_face_float\<close>). A method that mutates \<^verbatim>\<open>self\<close> takes the object and returns the updated
  one; what it sends to the outside world (PWM commands, console output, Qt signals) is
  returned as a list of events, in the order issued; an exception is a value. Pixel
  coordinates and box entries are taken as Python integers, as the methods' arithmetic
  reads; the fixed-width integers of the detector's arrays, the Qt signal machinery and
  the GPIO library are outside the model.
\<close>

subsection \<open>Errors and events\<close>

datatype error = ZeroDivisionError

datatype event =
    ChangeDutyCycle real
  | Sleep real
  | PrintSimulation real
  | ServoStop
  | GPIOCleanup
  | CapRelease
  | ServoAngleUpdate real
  | FrameReady "(int \<times> int \<times> int \<times> int) list"
  | Msleep int

subsection \<open>ServoController\<close>

record ServoController =
  pin :: int
  min_angle :: real
  max_angle :: real
  center_angle :: real
  current_angle :: real
  smoothing_factor :: real
  dead_zone :: real
  max_speed :: real
  hardware_available :: bool

text \<open>
  \<^verbatim>\<open>__init__(self, pin=18, min_angle=0, max_angle=180, center_angle=90)\<close>. Whether
  \<^verbatim>\<open>import RPi.GPIO\<close> succeeds is the parameter \<open>gpio\<close>. The arguments are stored as given:
  the constructor compares none of them with the others.
\<close>

definition ServoController_init :: "int \<Rightarrow> real \<Rightarrow> real \<Rightarrow> real \<Rightarrow> bool \<Rightarrow> ServoController" where
  "ServoController_init p mn mx c gpio =
     \<lparr> pin = p, min_angle = mn, max_angle = mx, center_angle = c, current_angle = c,
       smoothing_factor = 3 / 10, dead_zone = 20, max_speed = 2,
       hardware_available = gpio \<rparr>"

text \<open>\<^verbatim>\<open>ServoController()\<close>, as the application and the test script construct it.\<close>

definition ServoController_default :: "bool \<Rightarrow> ServoController" where
  "ServoController_default gpio = ServoController_init 18 0 180 90 gpio"

definition set_angle :: "ServoController \<Rightarrow> real \<Rightarrow> event list \<times> ServoController" where
  "set_angle self angle0 =
     (let angle = max (min_angle self) (min (max_angle self) angle0) in
      ((if hardware_available self
        then (let duty_cycle = (angle / 180) * 10 + 5 / 2 in
              [ChangeDutyCycle duty_cycle, Sleep (1 / 10), ChangeDutyCycle 0])
        else [PrintSimulation angle]),
       self\<lparr>current_angle := angle\<rparr>))"

text \<open>
  \<^verbatim>\<open>track_face\<close> returns nothing; its result here is the exception raised, if any, the
  events issued and the controller afterwards. The division by \<^verbatim>\<open>frame_center_x\<close> raises
  \<^verbatim>\<open>ZeroDivisionError\<close> when that is zero, before anything has been changed.
\<close>

definition track_face ::
  "ServoController \<Rightarrow> int \<Rightarrow> int \<Rightarrow> int \<Rightarrow> int \<Rightarrow> error option \<times> event list \<times> ServoController" where
  "track_face self face_x face_y frame_width frame_height =
     (let frame_center_x = frame_width div 2;
          offset_x = face_x - frame_center_x
      in if \<bar>real_of_int offset_x\<bar> < dead_zone self then (None, [], self)
         else if frame_center_x = 0 then (Some ZeroDivisionError, [], self)
         else
           (let angle_change = (real_of_int offset_x / real_of_int frame_center_x)
                                 * (max_angle self - min_angle self) * (1 / 2);
                target_angle = center_angle self - angle_change;
                angle_diff0 = target_angle - current_angle self;
                angle_diff = max (- max_speed self) (min (max_speed self) angle_diff0);
                new_angle = current_angle self + (angle_diff * smoothing_factor self);
                (evs, self') = set_angle self new_angle
            in (None, evs, self')))"

definition center_servo :: "ServoController \<Rightarrow> event list \<times> ServoController" where
  "center_servo self = set_angle self (center_angle self)"

definition cleanup :: "ServoController \<Rightarrow> event list \<times> ServoController" where
  "cleanup self = ((if hardware_available self then [ServoStop, GPIOCleanup] else []), self)"

subsection \<open>FaceTrackerThread\<close>

type_synonym box = "int \<times> int \<times> int \<times> int"

text \<open>The key \<^verbatim>\<open>lambda x: x[2] * x[3]\<close>.\<close>

fun face_key :: "box \<Rightarrow> int" where
  "face_key (x, y, w, h) = w * h"

text \<open>
  Python's \<^verbatim>\<open>max(iterable, key=...)\<close> keeps the first item and replaces it only by a later
  item whose key is strictly greater.
\<close>

fun max_from :: "('a \<Rightarrow> int) \<Rightarrow> 'a \<Rightarrow> 'a list \<Rightarrow> 'a" where
  "max_from k best [] = best"
| "max_from k best (x # xs) = (if k best < k x then max_from k x xs else max_from k best xs)"

text \<open>
  Lines 137 to 139 of \<^verbatim>\<open>run\<close>: \<^verbatim>\<open>if len(faces) > 0: largest_face = max(faces, key=...)\<close>;
  \<open>None\<close> is the branch not taken.
\<close>

fun largest_face :: "box list \<Rightarrow> box option" where
  "largest_face [] = None"
| "largest_face (f # fs) = Some (max_from face_key f fs)"

text \<open>
  One pass of the \<^verbatim>\<open>while self.running\<close> loop of \<^verbatim>\<open>run\<close>, on what the camera and the
  detector delivered: \<open>ret\<close>, the frame's shape \<open>(height, width)\<close> and the detected
  boxes. An exception of \<^verbatim>\<open>track_face\<close> leaves \<^verbatim>\<open>run\<close>, so nothing after it is emitted.
\<close>

definition run_iteration ::
  "ServoController \<Rightarrow> bool \<Rightarrow> int \<times> int \<Rightarrow> box list \<Rightarrow> error option \<times> event list \<times> ServoController" where
  "run_iteration servo_controller ret shape faces =
     (if ret then
        (let (err, evs, servo_controller') =
               (case largest_face faces of
                  Some (x, y, w, h) \<Rightarrow>
                    (let face_center_x = x + w div 2;
                         face_center_y = y + h div 2
                     in case track_face servo_controller face_center_x face_center_y
                               (snd shape) (fst shape) of
                          (Some e, evs, sc) \<Rightarrow> (Some e, evs, sc)
                        | (None, evs, sc) \<Rightarrow> (None, evs @ [ServoAngleUpdate (current_angle sc)], sc))
                | None \<Rightarrow> (None, [], servo_controller))
         in case err of
              Some e \<Rightarrow> (Some e, evs, servo_controller')
            | None \<Rightarrow> (None, evs @ [FrameReady faces, Msleep 30], servo_controller'))
      else (None, [Msleep 30], servo_controller))"

text \<open>
  The thread object: \<open>cap\<close> is \<open>None\<close> before \<^verbatim>\<open>run\<close> has created the capture, and
  \<open>Some opened\<close> afterwards. The servo controller it was given is the application's own
  object, so the model keeps it in the application's record only.
\<close>

record FaceTrackerThread =
  running :: bool
  cap :: "bool option"


subsection \<open>FaceTrackerServoApp\<close>

record FaceTrackerServoApp =
  servo_controller :: ServoController
  tracker_thread :: "FaceTrackerThread option"
  is_tracking :: bool



subsection \<open>The states a controller can reach\<close>

text \<open>
  From a constructed controller \<open>s0\<close>, every call of \<^verbatim>\<open>set_angle\<close>, \<^verbatim>\<open>track_face\<close>,
  \<^verbatim>\<open>center_servo\<close> or \<^verbatim>\<open>cleanup\<close>, with any arguments, leads to a reachable state.
\<close>

inductive reachable :: "ServoController \<Rightarrow> ServoController \<Rightarrow> bool" for s0 :: ServoController where
  constructed: "reachable s0 s0"
| after_set_angle: "reachable s0 s \<Longrightarrow> reachable s0 (snd (set_angle s a))"
| after_track_face: "reachable s0 s \<Longrightarrow> reachable s0 (snd (snd (track_face s fx fy fw fh)))"
| after_center_servo: "reachable s0 s \<Longrightarrow> reachable s0 (snd (center_servo s))"
| after_cleanup: "reachable s0 s \<Longrightarrow> reachable s0 (snd (cleanup s))"

subsection \<open>The algorithm as the specification words it\<close>

text \<open>
  Section 4.2 of the specification describes \<^verbatim>\<open>compute_next_angle(target_center_x,
  frame_width)\<close> in seven steps. The definition below follows those words, to be compared
  with \<open>track_face\<close>: exact halving of the frame width, a guard on \<open>frame_width \<le> 0\<close>, and
  a clamped target.
\<close>

datatype spec_error = InvalidFrameGeometry

definition spec_clamp :: "real \<Rightarrow> real \<Rightarrow> real \<Rightarrow> real" where
  "spec_clamp x lo hi = max lo (min hi x)"

definition spec_compute_next_angle ::
  "ServoController \<Rightarrow> int \<Rightarrow> int \<Rightarrow> spec_error + real \<times> ServoController" where
  "spec_compute_next_angle st target_center_x frame_width =
     (let offset = real_of_int target_center_x - real_of_int frame_width / 2
      in if frame_width \<le> 0 then Inl InvalidFrameGeometry
         else if \<bar>offset\<bar> < dead_zone st then Inr (current_angle st, st)
         else
           (let angle_change = (offset / (real_of_int frame_width / 2))
                                 * (max_angle st - min_angle st) * (1 / 2);
                target = spec_clamp (center_angle st - angle_change) (min_angle st) (max_angle st);
                diff = spec_clamp (target - current_angle st) (- max_speed st) (max_speed st);
                new_angle = spec_clamp (current_angle st + diff * smoothing_factor st)
                              (min_angle st) (max_angle st)
            in Inr (new_angle, st\<lparr>current_angle := new_angle\<rparr>)))"

subsection \<open>Double-precision arithmetic\<close>

text \<open>
  Where a property turns on the rounding of Python's floats, the controller's arithmetic
  is taken in IEEE 754 double precision: every operation returns the exact result rounded
  to 53 significant bits, ties to the even significand. \<open>fl\<close> is that rounding on the
  reals, with no bound on the exponent: overflow to infinity, subnormal numbers and NaN
  are outside the model. \<open>pow2_below x\<close> is the greatest power of two not above a
  positive \<open>x\<close>, found by halving or doubling.
\<close>

definition round_half_even :: "real \<Rightarrow> int" where
  "round_half_even x =
     (let f = \<lfloor>x\<rfloor>; r = x - of_int f
      in if r < 1 / 2 then f else if 1 / 2 < r then f + 1 else if even f then f else f + 1)"

function pow2_up :: "real \<Rightarrow> real" where
  "pow2_up x = (if 2 \<le> x then 2 * pow2_up (x / 2) else 1)"
  by pat_completeness auto
termination
proof (relation "measure (\<lambda>x. nat \<lfloor>x\<rfloor>)")
  show "wf (measure (\<lambda>x::real. nat \<lfloor>x\<rfloor>))" by simp
next
  fix x :: real
  assume "2 \<le> x"
  then have "\<lfloor>x / 2\<rfloor> < \<lfloor>x\<rfloor>" by linarith
  moreover have "0 < \<lfloor>x\<rfloor>" using \<open>2 \<le> x\<close> by linarith
  ultimately show "(x / 2, x) \<in> measure (\<lambda>x. nat \<lfloor>x\<rfloor>)" by simp
qed

function pow2_down :: "real \<Rightarrow> real" where
  "pow2_down x = (if 0 < x \<and> x < 1 then pow2_down (2 * x) / 2 else 1)"
  by pat_completeness auto
termination
proof (relation "measure (\<lambda>x. nat \<lceil>1 / x\<rceil>)")
  show "wf (measure (\<lambda>x::real. nat \<lceil>1 / x\<rceil>))" by simp
next
  fix x :: real
  assume a: "0 < x \<and> x < 1"
  then have y: "1 < 1 / x" by simp
  then have c: "2 \<le> \<lceil>1 / x\<rceil>" by linarith
  have "1 / (2 * x) = (1 / x) / 2" by simp
  also have "\<dots> \<le> of_int \<lceil>1 / x\<rceil> / 2" by (simp add: divide_right_mono)
  also have "\<dots> \<le> of_int (\<lceil>1 / x\<rceil> - 1)" using c by simp
  finally have "1 / (2 * x) \<le> of_int (\<lceil>1 / x\<rceil> - 1)" .
  then have "\<lceil>1 / (2 * x)\<rceil> \<le> \<lceil>1 / x\<rceil> - 1" by (simp only: ceiling_le_iff)
  then have "nat \<lceil>1 / (2 * x)\<rceil> < nat \<lceil>1 / x\<rceil>" using c by linarith
  then show "(2 * x, x) \<in> measure (\<lambda>x. nat \<lceil>1 / x\<rceil>)" unfolding in_measure .
qed

declare pow2_up.simps [simp del] pow2_down.simps [simp del]

definition pow2_below :: "real \<Rightarrow> real" where
  "pow2_below x = (if 1 \<le> x then pow2_up x else pow2_down x)"

definition fl :: "real \<Rightarrow> real" where
  "fl x =
     (if x = 0 then 0
      else (let ulp = pow2_below \<bar>x\<bar> / 2 ^ 52
            in sgn x * (of_int (round_half_even (\<bar>x\<bar> / ulp)) * ulp)))"

text \<open>
  The methods of \<^verbatim>\<open>ServoController\<close> once more, operation by operation as Python
  evaluates them on doubles: the literal \<^verbatim>\<open>0.3\<close> is \<open>fl (3/10)\<close>, \<^verbatim>\<open>int / int\<close> is
  the correctly rounded quotient, each \<^verbatim>\<open>*\<close>, \<^verbatim>\<open>+\<close> and \<^verbatim>\<open>-\<close> on a float is rounded, and
  \<^verbatim>\<open>max\<close>, \<^verbatim>\<open>min\<close> and the comparisons are exact. The fields hold doubles, or integers
  below \<open>2^53\<close>, which are doubles.
\<close>

definition ServoController_init_float :: "int \<Rightarrow> real \<Rightarrow> real \<Rightarrow> real \<Rightarrow> bool \<Rightarrow> ServoController" where
  "ServoController_init_float p mn mx c gpio =
     \<lparr> pin = p, min_angle = mn, max_angle = mx, center_angle = c, current_angle = c,
       smoothing_factor = fl (3 / 10), dead_zone = 20, max_speed = 2,
       hardware_available = gpio \<rparr>"

definition ServoController_default_float :: "bool \<Rightarrow> ServoController" where
  "ServoController_default_float gpio = ServoController_init_float 18 0 180 90 gpio"

definition set_angle_float :: "ServoController \<Rightarrow> real \<Rightarrow> event list \<times> ServoController" where
  "set_angle_float self angle0 =
     (let angle = max (min_angle self) (min (max_angle self) angle0) in
      ((if hardware_available self
        then (let duty_cycle = fl (fl (fl (angle / 180) * 10) + 5 / 2) in
              [ChangeDutyCycle duty_cycle, Sleep (fl (1 / 10)), ChangeDutyCycle 0])
        else [PrintSimulation angle]),
       self\<lparr>current_angle := angle\<rparr>))"

definition track_face_float ::
  "ServoController \<Rightarrow> int \<Rightarrow> int \<Rightarrow> int \<Rightarrow> int \<Rightarrow> error option \<times> event list \<times> ServoController" where
  "track_face_float self face_x face_y frame_width frame_height =
     (let frame_center_x = frame_width div 2;
          offset_x = face_x - frame_center_x
      in if \<bar>real_of_int offset_x\<bar> < dead_zone self then (None, [], self)
         else if frame_center_x = 0 then (Some ZeroDivisionError, [], self)
         else
           (let angle_change = fl (fl (fl (real_of_int offset_x / real_of_int frame_center_x)
                                 * fl (max_angle self - min_angle self)) * (1 / 2));
                target_angle = fl (center_angle self - angle_change);
                angle_diff0 = fl (target_angle - current_angle self);
                angle_diff = max (- max_speed self) (min (max_speed self) angle_diff0);
                new_angle = fl (current_angle self + fl (angle_diff * smoothing_factor self));
                (evs, self') = set_angle_float self new_angle
            in (None, evs, self')))"

section \<open>Properties\<close>

subsection \<open>Helper facts\<close>

lemma set_angle_fields:
  "min_angle (snd (set_angle s a)) = min_angle s"
  "max_angle (snd (set_angle s a)) = max_angle s"
  "center_angle (snd (set_angle s a)) = center_angle s"
  "current_angle (snd (set_angle s a)) = max (min_angle s) (min (max_angle s) a)"
  by (simp_all add: set_angle_def Let_def)

lemma track_face_fields:
  "min_angle (snd (snd (track_face s fx fy fw fh))) = min_angle s"
  "max_angle (snd (snd (track_face s fx fy fw fh))) = max_angle s"
  "center_angle (snd (snd (track_face s fx fy fw fh))) = center_angle s"
  by (simp_all add: track_face_def set_angle_def Let_def)

text \<open>The constructor's defaults, unfolded.\<close>

lemmas dflt = ServoController_default_def ServoController_init_def

text \<open>The stored angle after \<^verbatim>\<open>track_face\<close>, in one equation.\<close>

lemma track_face_current:
  "current_angle (snd (snd (track_face s fx fy fw fh))) =
     (if \<bar>real_of_int (fx - fw div 2)\<bar> < dead_zone s \<or> fw div 2 = 0 then current_angle s
      else max (min_angle s) (min (max_angle s)
             (current_angle s +
                max (- max_speed s) (min (max_speed s)
                  (center_angle s
                     - (real_of_int (fx - fw div 2) / real_of_int (fw div 2))
                         * (max_angle s - min_angle s) * (1 / 2)
                     - current_angle s))
                * smoothing_factor s)))"
  by (simp add: track_face_def set_angle_def Let_def)

text \<open>A clamped step moves no further than the unclamped one; the slew limiter is symmetric.\<close>

lemma clamp_step:
  fixes c :: real
  assumes "lo \<le> c" "c \<le> hi" "\<bar>e\<bar> \<le> b"
  shows "\<bar>max lo (min hi (c + e)) - c\<bar> \<le> b"
  using assms by (simp add: max_def min_def abs_if split: if_splits)

lemma slew_bound:
  fixes m :: real
  assumes "0 \<le> m"
  shows "\<bar>max (- m) (min m x)\<bar> \<le> m"
  using assms by (simp add: max_def min_def abs_if)

text \<open>
  The range invariant by rule induction over the reachable states. It needs a constructor
  call with \<open>mn \<le> c \<le> mx\<close>: \<^verbatim>\<open>__init__\<close> stores \<^verbatim>\<open>center_angle\<close> as the first
  \<^verbatim>\<open>current_angle\<close> without comparing it with the limits, as the second lemma shows.
\<close>

lemma reachable_in_range:
  assumes "mn \<le> c" "c \<le> mx" "reachable (ServoController_init p mn mx c gpio) s"
  shows "min_angle s = mn \<and> max_angle s = mx \<and> mn \<le> current_angle s \<and> current_angle s \<le> mx"
  using assms(3)
proof (induction rule: reachable.induct)
  case constructed
  show ?case using assms(1,2) by (simp add: ServoController_init_def)
next
  case (after_set_angle s a)
  then show ?case using assms(1,2) by (simp add: set_angle_fields)
next
  case (after_track_face s fx fy fw fh)
  then show ?case using assms(1,2) by (simp add: track_face_fields track_face_current)
next
  case (after_center_servo s)
  then show ?case using assms(1,2) by (simp add: center_servo_def set_angle_fields)
next
  case (after_cleanup s)
  then show ?case by (simp add: cleanup_def)
qed

lemma init_stores_center_unchecked:
  "current_angle (ServoController_init 18 0 180 200 gpio) = 200
   \<and> max_angle (ServoController_init 18 0 180 200 gpio) = 180"
  by (simp add: ServoController_init_def)

text \<open>
  \<open>max_from\<close> returns an element of the list such that everything before it has a
  strictly smaller key and nothing after it has a greater one: the first maximum.
\<close>

lemma max_from_first_max:
  "\<exists>pre post. b # xs = pre @ max_from k b xs # post
      \<and> (\<forall>y\<in>set pre. k y < k (max_from k b xs))
      \<and> (\<forall>y\<in>set post. k y \<le> k (max_from k b xs))"
proof (induction xs arbitrary: b)
  case Nil
  have "[b] = [] @ b # []" "\<forall>y\<in>set []. k y < k b" "\<forall>y\<in>set []. k y \<le> k b"
    by simp_all
  then show ?case unfolding max_from.simps by blast
next
  case (Cons x xs)
  show ?case
  proof (cases "k b < k x")
    case True
    then have mf: "max_from k b (x # xs) = max_from k x xs" by simp
    from Cons.IH [of x] obtain pre post where
      s: "x # xs = pre @ max_from k x xs # post"
      and p: "\<forall>y\<in>set pre. k y < k (max_from k x xs)"
      and q: "\<forall>y\<in>set post. k y \<le> k (max_from k x xs)" by blast
    have "x \<in> set (pre @ max_from k x xs # post)" using s by (metis list.set_intros(1))
    then have "k x \<le> k (max_from k x xs)" using p q by auto
    then have "k b < k (max_from k x xs)" using True by simp
    then have "b # x # xs = (b # pre) @ max_from k x xs # post"
      "\<forall>y\<in>set (b # pre). k y < k (max_from k x xs)" using s p by simp_all
    then show ?thesis unfolding mf using q by blast
  next
    case False
    then have mf: "max_from k b (x # xs) = max_from k b xs" by simp
    from Cons.IH [of b] obtain pre post where
      s: "b # xs = pre @ max_from k b xs # post"
      and p: "\<forall>y\<in>set pre. k y < k (max_from k b xs)"
      and q: "\<forall>y\<in>set post. k y \<le> k (max_from k b xs)" by blast
    show ?thesis
    proof (cases pre)
      case Nil
      have s': "b # xs = max_from k b xs # post" using s unfolding Nil append_Nil .
      have bm: "max_from k b xs = b" using s' by (metis list.inject)
      have xp: "xs = post" using s' by (metis list.inject)
      have "k x \<le> k (max_from k b xs)" using False bm by simp
      then have "b # x # xs = [] @ max_from k b xs # (x # post)"
        "\<forall>y\<in>set []. k y < k (max_from k b xs)"
        "\<forall>y\<in>set (x # post). k y \<le> k (max_from k b xs)" using q bm xp by simp_all
      then show ?thesis unfolding mf by blast
    next
      case (Cons p1 pre')
      have s': "b # xs = p1 # (pre' @ max_from k b xs # post)"
        using s unfolding Cons append_Cons .
      have e1: "p1 = b" using s' by (metis list.inject)
      have e2: "xs = pre' @ max_from k b xs # post" using s' by (metis list.inject)
      have pb: "\<forall>y\<in>set (b # pre'). k y < k (max_from k b xs)"
        using p unfolding Cons e1 .
      then have "k b < k (max_from k b xs)" by simp
      then have "k x < k (max_from k b xs)" using False by simp
      then have "\<forall>y\<in>set (b # x # pre'). k y < k (max_from k b xs)" using pb by simp
      moreover have "b # x # xs = (b # x # pre') @ max_from k b xs # post"
        using e2 by (metis append_Cons)
      ultimately have "b # x # xs = (b # x # pre') @ max_from k b xs # post"
        "\<forall>y\<in>set (b # x # pre'). k y < k (max_from k b xs)" by blast+
      then show ?thesis unfolding mf using q by blast
    qed
  qed
qed

text \<open>
  Where the two algorithms meet: for an even, positive frame width and a proportional
  target that already lies within the limits, \<open>track_face\<close> stores what the
  specification's \<open>compute_next_angle\<close> returns.
\<close>

lemma track_face_agrees_with_spec:
  assumes "0 < frame_width" "even frame_width"
    "\<not> \<bar>real_of_int (face_x - frame_width div 2)\<bar> < dead_zone s"
    "min_angle s \<le> center_angle s
        - (real_of_int (face_x - frame_width div 2) / real_of_int (frame_width div 2))
            * (max_angle s - min_angle s) * (1 / 2)"
    "center_angle s
        - (real_of_int (face_x - frame_width div 2) / real_of_int (frame_width div 2))
            * (max_angle s - min_angle s) * (1 / 2) \<le> max_angle s"
  shows "spec_compute_next_angle s face_x frame_width
           = Inr (current_angle (snd (snd (track_face s face_x face_y frame_width frame_height))),
                  snd (snd (track_face s face_x face_y frame_width frame_height)))"
proof -
  obtain k where k: "frame_width = 2 * k" using assms(2) by (elim evenE)
  then have kp: "0 < k" using assms(1) by simp
  have half: "real_of_int frame_width / 2 = real_of_int k" "frame_width div 2 = k"
    using k by simp_all
  have tgt: "max (min_angle s) (min (max_angle s) (center_angle s
        - (real_of_int (face_x - k) / real_of_int k)
            * (max_angle s - min_angle s) * (1 / 2)))
       = center_angle s
        - (real_of_int (face_x - k) / real_of_int k)
            * (max_angle s - min_angle s) * (1 / 2)"
    using assms(4,5) unfolding half by linarith
  have dz: "\<not> \<bar>real_of_int face_x - real_of_int k\<bar> < dead_zone s"
    using assms(3) unfolding half by simp
  show ?thesis
    unfolding spec_compute_next_angle_def track_face_def set_angle_def spec_clamp_def Let_def half
    using kp dz assms(1) tgt
    by (simp add: of_int_diff)
qed

text \<open>
  The rounding \<open>fl\<close>: the rounded significand is within a half of the exact one and
  monotone; \<open>pow2_below\<close> is a power of two with \<open>pow2_below x \<le> x < 2 * pow2_below x\<close>;
  hence \<open>fl\<close> is odd and monotone, and its relative error is at most \<open>2^-53\<close>.
\<close>

lemma round_half_even_near: "\<bar>of_int (round_half_even x) - x\<bar> \<le> 1 / 2"
  unfolding round_half_even_def Let_def by (auto; linarith)

lemma round_half_even_mono:
  assumes "x \<le> y"
  shows "round_half_even x \<le> round_half_even y"
proof (cases "\<lfloor>x\<rfloor> = \<lfloor>y\<rfloor>")
  case True
  then show ?thesis using assms unfolding round_half_even_def Let_def by auto
next
  case False
  then have "\<lfloor>x\<rfloor> + 1 \<le> \<lfloor>y\<rfloor>" using assms floor_mono [OF assms] by linarith
  moreover have "round_half_even x \<le> \<lfloor>x\<rfloor> + 1" unfolding round_half_even_def Let_def by auto
  moreover have "\<lfloor>y\<rfloor> \<le> round_half_even y" unfolding round_half_even_def Let_def by auto
  ultimately show ?thesis by linarith
qed

lemma round_half_even_int: "round_half_even (of_int n) = n"
  unfolding round_half_even_def Let_def by simp

lemma pow2_up_spec:
  "1 \<le> x \<Longrightarrow> (\<exists>k::nat. pow2_up x = 2 ^ k) \<and> pow2_up x \<le> x \<and> x < 2 * pow2_up x"
proof (induction x rule: pow2_up.induct)
  case (1 x)
  show ?case
  proof (cases "2 \<le> x")
    case True
    then have "1 \<le> x / 2" by simp
    from "1.IH" [OF True this] obtain k :: nat where
      k: "pow2_up (x / 2) = 2 ^ k" and b: "pow2_up (x / 2) \<le> x / 2" "x / 2 < 2 * pow2_up (x / 2)"
      by blast
    have e: "pow2_up x = 2 * pow2_up (x / 2)" using True by (subst pow2_up.simps) simp
    have "pow2_up x = 2 ^ Suc k" using e k by simp
    then show ?thesis using e b by (metis (no_types) mult_2 add_mono field_sum_of_halves
          linorder_not_le add_strict_mono)
  next
    case False
    then have e: "pow2_up x = 1" by (subst pow2_up.simps) simp
    have "(1::real) = 2 ^ (0::nat)" by simp
    then show ?thesis using e False "1.prems" by (metis linorder_not_le mult.right_neutral)
  qed
qed

lemma pow2_down_spec:
  "0 < x \<Longrightarrow> x < 1 \<Longrightarrow>
     (\<exists>k::nat. pow2_down x = 1 / 2 ^ k) \<and> pow2_down x \<le> x \<and> x < 2 * pow2_down x"
proof (induction x rule: pow2_down.induct)
  case (1 x)
  have e: "pow2_down x = pow2_down (2 * x) / 2" using "1.prems" by (subst pow2_down.simps) simp
  show ?case
  proof (cases "2 * x < 1")
    case True
    have "0 < x \<and> x < 1" "0 < 2 * x" using "1.prems" by simp_all
    from "1.IH" [OF this True] obtain k :: nat where
      k: "pow2_down (2 * x) = 1 / 2 ^ k"
      and b: "pow2_down (2 * x) \<le> 2 * x" "2 * x < 2 * pow2_down (2 * x)"
      by blast
    have "pow2_down x = 1 / 2 ^ Suc k" using e k by simp
    moreover have "pow2_down x \<le> x" "x < 2 * pow2_down x" using e b by simp_all
    ultimately show ?thesis by blast
  next
    case False
    then have "pow2_down (2 * x) = 1" by (subst pow2_down.simps) simp
    then have h: "pow2_down x = 1 / 2" using e by simp
    then have "pow2_down x = 1 / 2 ^ Suc 0" by simp
    moreover have "pow2_down x \<le> x" "x < 2 * pow2_down x" using h False "1.prems" by simp_all
    ultimately show ?thesis by blast
  qed
qed

lemma pow2_below_spec:
  assumes "0 < x"
  shows "(\<exists>k::int. pow2_below x = 2 powi k) \<and> pow2_below x \<le> x \<and> x < 2 * pow2_below x"
proof (cases "1 \<le> x")
  case True
  from pow2_up_spec [OF True] obtain k :: nat where
    "pow2_up x = 2 ^ k" "pow2_up x \<le> x" "x < 2 * pow2_up x" by blast
  moreover have "(2::real) ^ k = 2 powi (int k)" by simp
  ultimately show ?thesis using True unfolding pow2_below_def by (metis (full_types))
next
  case False
  then have "x < 1" by simp
  from pow2_down_spec [OF assms this] obtain k :: nat where
    "pow2_down x = 1 / 2 ^ k" "pow2_down x \<le> x" "x < 2 * pow2_down x" by blast
  moreover have "1 / (2::real) ^ k = 2 powi (- int k)"
    by (simp add: power_int_minus field_simps)
  ultimately show ?thesis using False unfolding pow2_below_def by (metis (full_types))
qed

lemma pow2_below_pos: "0 < x \<Longrightarrow> 0 < pow2_below x"
  using pow2_below_spec [of x] by auto

lemma pow2_below_step:
  assumes "0 < x" "x \<le> y"
  shows "pow2_below x = pow2_below y \<or> 2 * pow2_below x \<le> pow2_below y"
proof -
  have y: "0 < y" using assms by simp
  from pow2_below_spec [OF assms(1)] obtain a :: int where
    a: "pow2_below x = 2 powi a" and xa: "pow2_below x \<le> x" by blast
  from pow2_below_spec [OF y] obtain b :: int where
    b: "pow2_below y = 2 powi b" and yb: "y < 2 * pow2_below y" by blast
  have "(2::real) powi a < 2 powi (b + 1)"
    using xa yb assms(2) a b by (simp add: power_int_add)
  have "a < b + 1"
  proof (rule ccontr)
    assume "\<not> a < b + 1"
    then have "b + 1 \<le> a" by simp
    then have "(2::real) powi (b + 1) \<le> 2 powi a" by (intro power_int_increasing) simp_all
    then show False using \<open>(2::real) powi a < 2 powi (b + 1)\<close> by simp
  qed
  then consider "a = b" | "a + 1 \<le> b" by linarith
  then show ?thesis
  proof cases
    case 1
    then show ?thesis using a b by simp
  next
    case 2
    then have "(2::real) powi (a + 1) \<le> 2 powi b"
      by (intro power_int_increasing) simp_all
    then show ?thesis using a b by (simp add: power_int_add)
  qed
qed

lemma fl_pos_eq:
  "0 < x \<Longrightarrow>
     fl x = of_int (round_half_even (x / (pow2_below x / 2 ^ 52))) * (pow2_below x / 2 ^ 52)"
  by (simp add: fl_def Let_def)

lemma fl_pos_bounds:
  assumes "0 < x"
  shows "pow2_below x \<le> fl x \<and> fl x \<le> 2 * pow2_below x"
proof -
  define p where "p = pow2_below x"
  define u where "u = p / 2 ^ 52"
  have p: "0 < p" "p \<le> x" "x < 2 * p"
    using pow2_below_spec [OF assms] pow2_below_pos [OF assms] unfolding p_def by auto
  have u: "0 < u" using p unfolding u_def by simp
  have f: "fl x = of_int (round_half_even (x / u)) * u"
    unfolding u_def p_def by (rule fl_pos_eq [OF assms])
  have "2 ^ 52 \<le> x / u" "x / u \<le> 2 ^ 53"
    using p u unfolding u_def by (simp_all add: field_simps)
  then have "round_half_even (of_int (2 ^ 52)) \<le> round_half_even (x / u)"
    "round_half_even (x / u) \<le> round_half_even (of_int (2 ^ 53))"
    by (intro round_half_even_mono; simp)+
  then have "2 ^ 52 \<le> round_half_even (x / u)" "round_half_even (x / u) \<le> 2 ^ 53"
    unfolding round_half_even_int by simp_all
  then have "(2 ^ 52 :: real) \<le> of_int (round_half_even (x / u))"
    "of_int (round_half_even (x / u)) \<le> (2 ^ 53 :: real)"
    by (metis of_int_le_iff of_int_numeral of_int_power)+
  then have "2 ^ 52 * u \<le> of_int (round_half_even (x / u)) * u"
    "of_int (round_half_even (x / u)) * u \<le> 2 ^ 53 * u"
    using u by (simp_all add: mult_right_mono)
  moreover have "2 ^ 52 * u = p" "2 ^ 53 * u = 2 * p" unfolding u_def by simp_all
  ultimately show ?thesis unfolding f p_def by simp
qed

lemma fl_mono_pos:
  assumes "0 < x" "x \<le> y"
  shows "fl x \<le> fl y"
proof -
  have y: "0 < y" using assms by simp
  from pow2_below_step [OF assms] show ?thesis
  proof
    assume e: "pow2_below x = pow2_below y"
    define u where "u = pow2_below y / 2 ^ 52"
    have u: "0 < u" using pow2_below_pos [OF y] unfolding u_def by simp
    have "x / u \<le> y / u" using assms(2) u by (simp add: divide_right_mono)
    then have "round_half_even (x / u) \<le> round_half_even (y / u)"
      by (rule round_half_even_mono)
    then have "of_int (round_half_even (x / u)) * u \<le> of_int (round_half_even (y / u)) * u"
      using u by (simp add: mult_right_mono)
    moreover have "fl x = of_int (round_half_even (x / u)) * u"
      unfolding u_def e [symmetric] by (rule fl_pos_eq [OF assms(1)])
    moreover have "fl y = of_int (round_half_even (y / u)) * u"
      unfolding u_def by (rule fl_pos_eq [OF y])
    ultimately show ?thesis by simp
  next
    assume "2 * pow2_below x \<le> pow2_below y"
    then show ?thesis using fl_pos_bounds [OF assms(1)] fl_pos_bounds [OF y] by linarith
  qed
qed

lemma fl_minus: "fl (- x) = - fl x"
  unfolding fl_def Let_def by (simp add: sgn_minus)

lemma fl_nonneg: "0 \<le> x \<Longrightarrow> 0 \<le> fl x"
proof (cases "x = 0")
  case True
  then show ?thesis by (simp add: fl_def)
next
  case False
  assume "0 \<le> x"
  then have "0 < x" using False by simp
  from fl_pos_bounds [OF this] pow2_below_pos [OF this] show ?thesis by linarith
qed

lemma fl_mono:
  assumes "x \<le> y"
  shows "fl x \<le> fl y"
proof -
  consider "0 < x" | "x \<le> 0" "0 \<le> y" | "y < 0" by linarith
  then show ?thesis
  proof cases
    case 1
    then show ?thesis using assms by (rule fl_mono_pos)
  next
    case 2
    have "0 \<le> fl (- x)" using 2 by (intro fl_nonneg) simp
    then have "fl x \<le> 0" unfolding fl_minus by simp
    then show ?thesis using fl_nonneg [OF 2(2)] by linarith
  next
    case 3
    then have "0 < - y" "- y \<le> - x" using assms by simp_all
    then have "fl (- y) \<le> fl (- x)" by (rule fl_mono_pos)
    then show ?thesis unfolding fl_minus by simp
  qed
qed

lemma fl_error: "\<bar>fl x - x\<bar> \<le> \<bar>x\<bar> / 2 ^ 53"
proof (cases "x = 0")
  case True
  then show ?thesis by (simp add: fl_def)
next
  case False
  have fm: "\<bar>fl (- z) - (- z)\<bar> = \<bar>fl z - z\<bar>" for z unfolding fl_minus by simp
  have pos: "\<bar>fl z - z\<bar> \<le> z / 2 ^ 53" if z: "0 < z" for z
  proof -
    define u where "u = pow2_below z / 2 ^ 52"
    have p: "0 < pow2_below z" "pow2_below z \<le> z"
      using pow2_below_spec [OF z] pow2_below_pos [OF z] by auto
    have u: "0 < u" using p unfolding u_def by simp
    have f: "fl z = of_int (round_half_even (z / u)) * u"
      unfolding u_def by (rule fl_pos_eq [OF z])
    have "fl z - z = (of_int (round_half_even (z / u)) - z / u) * u"
      unfolding f using u by (simp add: field_simps)
    then have "\<bar>fl z - z\<bar> = \<bar>of_int (round_half_even (z / u)) - z / u\<bar> * u"
      using u by (simp add: abs_mult)
    also have "\<dots> \<le> (1 / 2) * u"
      using round_half_even_near [of "z / u"] u by (intro mult_right_mono) simp_all
    also have "\<dots> = pow2_below z / 2 ^ 53" unfolding u_def by simp
    also have "\<dots> \<le> z / 2 ^ 53" using p by (simp add: divide_right_mono)
    finally show ?thesis .
  qed
  show ?thesis
  proof (cases "0 < x")
    case True
    then show ?thesis using pos [OF True] by simp
  next
    case False
    then have n: "0 < - x" using \<open>x \<noteq> 0\<close> by simp
    from pos [OF n] show ?thesis unfolding fm using n by simp
  qed
qed

text \<open>
  The angle that \<open>track_face_float\<close> stores, and the slew-limited, smoothed step between the
  two rounded full steps.
\<close>

lemma track_face_float_current:
  "current_angle (snd (snd (track_face_float s fx fy fw fh))) =
     (if \<bar>real_of_int (fx - fw div 2)\<bar> < dead_zone s \<or> fw div 2 = 0 then current_angle s
      else max (min_angle s) (min (max_angle s)
             (fl (current_angle s +
                fl (max (- max_speed s) (min (max_speed s)
                  (fl (fl (center_angle s
                     - fl (fl (fl (real_of_int (fx - fw div 2) / real_of_int (fw div 2))
                         * fl (max_angle s - min_angle s)) * (1 / 2)))
                     - current_angle s)))
                * smoothing_factor s)))))"
  by (simp add: track_face_float_def set_angle_float_def Let_def)

lemma float_step_sandwich:
  assumes "0 \<le> m" "0 \<le> s" "- m \<le> d" "d \<le> m"
  shows "fl (c - fl (m * s)) \<le> fl (c + fl (d * s)) \<and> fl (c + fl (d * s)) \<le> fl (c + fl (m * s))"
proof -
  have "d * s \<le> m * s" using assms by (simp add: mult_right_mono)
  then have up: "fl (d * s) \<le> fl (m * s)" by (rule fl_mono)
  have "(- m) * s \<le> d * s" using assms by (intro mult_right_mono) simp_all
  then have "fl (- (m * s)) \<le> fl (d * s)" using fl_mono by simp
  then have lo: "- fl (m * s) \<le> fl (d * s)" unfolding fl_minus .
  show ?thesis using up lo by (intro conjI fl_mono) simp_all
qed

subsection \<open>The vertical coordinates\<close>

text \<open>
  C10. \<^verbatim>\<open>track_face\<close> never reads \<^verbatim>\<open>face_y\<close> or \<^verbatim>\<open>frame_height\<close>: two calls from the same
  controller with the same \<^verbatim>\<open>face_x\<close> and \<^verbatim>\<open>frame_width\<close> raise or return alike, issue
  the same actuator commands and leave the same controller, whatever the vertical
  coordinates are.
\<close>

theorem track_face_ignores_vertical:
  "track_face s face_x face_y frame_width frame_height
     = track_face s face_x face_y' frame_width frame_height'"
  by (simp add: track_face_def)

subsection \<open>The tracking step\<close>

text \<open>
  C1, as amended. On a tick whose target is outside the dead zone and whose frame centre
  \<^verbatim>\<open>frame_width // 2\<close> is not zero, \<^verbatim>\<open>track_face\<close> raises nothing and stores
  \<open>clamp (current + diff * smoothing_factor) min max\<close>, where
  \<open>diff = clamp (target - current) (- max_speed) max_speed\<close>, the target is
  \<open>center - angle_change\<close> as it stands (it is not clamped), \<open>angle_change =
  (offset / (frame_width // 2)) * (max - min) * 0.5\<close> and \<open>offset = face_x -
  frame_width // 2\<close>, with the floor of the half width. Nothing else of the controller
  changes. With the defaults, a frame 640 wide and the face at 400, the stored angle is
  89.4.
\<close>

theorem track_face_formula:
  "(\<not> \<bar>real_of_int (face_x - frame_width div 2)\<bar> < dead_zone s \<and> frame_width div 2 \<noteq> 0 \<longrightarrow>
      fst (track_face s face_x face_y frame_width frame_height) = None
      \<and> snd (snd (track_face s face_x face_y frame_width frame_height))
          = s\<lparr>current_angle :=
                max (min_angle s) (min (max_angle s)
                  (current_angle s +
                     max (- max_speed s) (min (max_speed s)
                       (center_angle s
                          - (real_of_int (face_x - frame_width div 2) / real_of_int (frame_width div 2))
                              * (max_angle s - min_angle s) * (1 / 2)
                          - current_angle s))
                     * smoothing_factor s))\<rparr>)
   \<and> current_angle (snd (snd (track_face (ServoController_default gpio) 400 face_y 640 frame_height)))
        = 894 / 10"
  by (simp add: track_face_def set_angle_def Let_def dflt)

text \<open>
  The formula at the defaults with the face at 100 in a frame 640 wide: offset -220,
  target 151.875, step limited to 2, stored angle 90.6.
\<close>

theorem track_face_formula_witness:
  "track_face (ServoController_default False) 100 240 640 480
     = (None, [PrintSimulation (453 / 5)], (ServoController_default False)\<lparr>current_angle := 453 / 5\<rparr>)"
proof -
  have h: "\<not> \<bar>real_of_int (100 - 640 div 2)\<bar> < dead_zone (ServoController_default False)
        \<and> (640::int) div 2 \<noteq> 0"
    by (simp add: dflt)
  have e: "fst (snd (track_face (ServoController_default False) 100 240 640 480))
             = [PrintSimulation (453 / 5)]"
    by code_simp
  have "fst (track_face (ServoController_default False) 100 240 640 480) = None
      \<and> snd (snd (track_face (ServoController_default False) 100 240 640 480))
           = (ServoController_default False)\<lparr>current_angle := 453 / 5\<rparr>"
    using h track_face_formula [of 100 640 "ServoController_default False" 240 480]
    by (simp add: dflt)
  then show ?thesis using e by (metis prod.collapse)
qed

text \<open>
  The specification's algorithm is not what \<open>track_face\<close> computes. In a frame 641
  wide, from angle 68 with the face at 400, the code's centre is 320 and it stores 67.85,
  where the exact half 320.5 gives 217628/3205. With \<^verbatim>\<open>center_angle=170\<close>, from angle 179
  with the face at 100 in a frame 640 wide, the unclamped target 231.875 lets the code
  step by the full 2 and store 179.6, where the clamped target 180 gives 179.3.
\<close>

theorem track_face_not_spec_counterexample:
  "spec_compute_next_angle (snd (set_angle (ServoController_default False) 68)) 400 641
     = Inr (217628 / 3205, (ServoController_default False)\<lparr>current_angle := 217628 / 3205\<rparr>)
   \<and> track_face (snd (set_angle (ServoController_default False) 68)) 400 240 641 480
     = (None, [PrintSimulation (1357 / 20)], (ServoController_default False)\<lparr>current_angle := 1357 / 20\<rparr>)
   \<and> spec_compute_next_angle (snd (set_angle (ServoController_init 18 0 180 170 False) 179)) 100 640
     = Inr (1793 / 10, (ServoController_init 18 0 180 170 False)\<lparr>current_angle := 1793 / 10\<rparr>)
   \<and> track_face (snd (set_angle (ServoController_init 18 0 180 170 False) 179)) 100 240 640 480
     = (None, [PrintSimulation (898 / 5)], (ServoController_init 18 0 180 170 False)\<lparr>current_angle := 898 / 5\<rparr>)"
  by code_simp

text \<open>
  In exact arithmetic a call of \<open>track_face\<close> changes the stored angle by at most
  \<open>max_speed * smoothing_factor\<close>; the doubles of the program can exceed that bound by
  rounding, as the counterexample below shows.
\<close>

lemma track_face_step_bounded_exact:
  assumes "min_angle s \<le> current_angle s" "current_angle s \<le> max_angle s"
    "0 \<le> max_speed s" "0 \<le> smoothing_factor s"
  shows "\<bar>current_angle (snd (snd (track_face s fx fy fw fh))) - current_angle s\<bar>
           \<le> max_speed s * smoothing_factor s"
proof (cases "\<bar>real_of_int (fx - fw div 2)\<bar> < dead_zone s \<or> fw div 2 = 0")
  case True
  then have "current_angle (snd (snd (track_face s fx fy fw fh))) = current_angle s"
    by (simp only: track_face_current if_True)
  then show ?thesis using assms(3,4) by simp
next
  case False
  define d where "d = max (- max_speed s) (min (max_speed s)
                  (center_angle s
                     - (real_of_int (fx - fw div 2) / real_of_int (fw div 2))
                         * (max_angle s - min_angle s) * (1 / 2)
                     - current_angle s))"
  have "\<bar>d\<bar> \<le> max_speed s"
    unfolding d_def by (rule slew_bound [OF assms(3)])
  then have b: "\<bar>d * smoothing_factor s\<bar> \<le> max_speed s * smoothing_factor s"
    using assms(4) by (simp add: abs_mult mult_right_mono)
  have "current_angle (snd (snd (track_face s fx fy fw fh))) =
          max (min_angle s) (min (max_angle s) (current_angle s + d * smoothing_factor s))"
    using False unfolding d_def by (simp only: track_face_current if_False)
  then show ?thesis
    using clamp_step [OF assms(1,2) b] by simp
qed

text \<open>
  C7, as amended. In double precision, from a controller within its limits whose
  \<^verbatim>\<open>current_angle\<close> is a double, with \<^verbatim>\<open>max_speed\<close> and \<^verbatim>\<open>smoothing_factor\<close> not
  negative, one call of \<^verbatim>\<open>track_face\<close> moves the stored angle no further than one rounded
  full step: with \<open>P\<close> the double product \<^verbatim>\<open>max_speed * smoothing_factor\<close>, the new angle
  lies between the doubles \<^verbatim>\<open>current_angle - P\<close> and \<^verbatim>\<open>current_angle + P\<close>, so that the
  change is at most \<open>P + (|current_angle| + P) / 2^53\<close>.
\<close>

theorem track_face_float_step_bounded:
  assumes "min_angle s \<le> current_angle s" "current_angle s \<le> max_angle s"
    "0 \<le> max_speed s" "0 \<le> smoothing_factor s"
    "fl (current_angle s) = current_angle s"
  shows "fl (current_angle s - fl (max_speed s * smoothing_factor s))
            \<le> current_angle (snd (snd (track_face_float s fx fy fw fh)))
         \<and> current_angle (snd (snd (track_face_float s fx fy fw fh)))
            \<le> fl (current_angle s + fl (max_speed s * smoothing_factor s))
         \<and> \<bar>current_angle (snd (snd (track_face_float s fx fy fw fh))) - current_angle s\<bar>
            \<le> fl (max_speed s * smoothing_factor s)
                + (\<bar>current_angle s\<bar> + fl (max_speed s * smoothing_factor s)) / 2 ^ 53"
proof -
  define c where "c = current_angle s"
  define P where "P = fl (max_speed s * smoothing_factor s)"
  define new where "new = current_angle (snd (snd (track_face_float s fx fy fw fh)))"
  have P0: "0 \<le> P" unfolding P_def using assms(3,4) by (intro fl_nonneg) simp
  have "fl (c - P) \<le> fl c" "fl c \<le> fl (c + P)" using P0 by (intro fl_mono; simp)+
  then have around: "fl (c - P) \<le> c" "c \<le> fl (c + P)"
    using assms(5) unfolding c_def by simp_all
  have sandwich: "fl (c - P) \<le> new \<and> new \<le> fl (c + P)"
  proof (cases "\<bar>real_of_int (fx - fw div 2)\<bar> < dead_zone s \<or> fw div 2 = 0")
    case True
    then have "new = c" unfolding new_def c_def by (simp only: track_face_float_current if_True)
    then show ?thesis using around by simp
  next
    case False
    define d where "d = max (- max_speed s) (min (max_speed s)
                  (fl (fl (center_angle s
                     - fl (fl (fl (real_of_int (fx - fw div 2) / real_of_int (fw div 2))
                         * fl (max_angle s - min_angle s)) * (1 / 2)))
                     - current_angle s)))"
    have d: "- max_speed s \<le> d" "d \<le> max_speed s" using assms(3) unfolding d_def by simp_all
    have n: "new = max (min_angle s) (min (max_angle s) (fl (c + fl (d * smoothing_factor s))))"
      using False unfolding new_def c_def d_def by (simp only: track_face_float_current if_False)
    from float_step_sandwich [OF assms(3,4) d, of c]
    have "fl (c - P) \<le> fl (c + fl (d * smoothing_factor s))"
      "fl (c + fl (d * smoothing_factor s)) \<le> fl (c + P)" unfolding P_def by simp_all
    then show ?thesis using around assms(1,2) unfolding n c_def
      by (auto simp add: max_def min_def)
  qed
  have "\<bar>fl (c + P) - (c + P)\<bar> \<le> \<bar>c + P\<bar> / 2 ^ 53" by (rule fl_error)
  moreover have "\<bar>fl (c - P) - (c - P)\<bar> \<le> \<bar>c - P\<bar> / 2 ^ 53" by (rule fl_error)
  moreover have "\<bar>c + P\<bar> / 2 ^ 53 \<le> (\<bar>c\<bar> + P) / 2 ^ 53" "\<bar>c - P\<bar> / 2 ^ 53 \<le> (\<bar>c\<bar> + P) / 2 ^ 53"
    using P0 by (intro divide_right_mono; simp)+
  ultimately have "\<bar>new - c\<bar> \<le> P + (\<bar>c\<bar> + P) / 2 ^ 53" using sandwich by linarith
  then show ?thesis using sandwich unfolding c_def P_def new_def by simp
qed

text \<open>
  The default controller at 90 with the face at 400 in a frame 640 wide.
\<close>

theorem track_face_float_step_bounded_witness:
  "fl (90 - fl (2 * fl (3 / 10)))
      \<le> current_angle (snd (snd (track_face_float (ServoController_default_float False) 400 240 640 480)))
   \<and> current_angle (snd (snd (track_face_float (ServoController_default_float False) 400 240 640 480)))
      \<le> fl (90 + fl (2 * fl (3 / 10)))
   \<and> \<bar>current_angle (snd (snd (track_face_float (ServoController_default_float False) 400 240 640 480)))
        - 90\<bar> \<le> fl (2 * fl (3 / 10)) + (\<bar>90\<bar> + fl (2 * fl (3 / 10))) / 2 ^ 53"
proof -
  have f: "min_angle (ServoController_default_float False) = 0"
    "max_angle (ServoController_default_float False) = 180"
    "current_angle (ServoController_default_float False) = 90"
    "max_speed (ServoController_default_float False) = 2"
    "smoothing_factor (ServoController_default_float False) = fl (3 / 10)"
    by (simp_all add: ServoController_default_float_def ServoController_init_float_def)
  have d: "fl 90 = 90" by code_simp
  have h: "min_angle (ServoController_default_float False) \<le> current_angle (ServoController_default_float False)"
    "current_angle (ServoController_default_float False) \<le> max_angle (ServoController_default_float False)"
    "0 \<le> max_speed (ServoController_default_float False)"
    "0 \<le> smoothing_factor (ServoController_default_float False)"
    "fl (current_angle (ServoController_default_float False))
       = current_angle (ServoController_default_float False)"
    unfolding f using d by (simp_all add: fl_nonneg)
  show ?thesis
    using track_face_float_step_bounded [OF h, of 400 240 640 480] unfolding f .
qed

text \<open>
  The bound without the rounding term fails. From the angle 1 (a slider position) with
  the face at 400 in a frame 640 wide, the step is \<^verbatim>\<open>1 + 2 * 0.3\<close>: the product is the
  double 5404319552844595 / 2^53, the exact sum lies half way between two doubles and is
  rounded to the even one, 7205759403792794 / 2^52, and the stored change
  5404319552844596 / 2^53 exceeds both the double product and 0.6.
\<close>

theorem track_face_float_step_counterexample:
  "current_angle (snd (set_angle_float (ServoController_default_float False) 1)) = 1
   \<and> current_angle (snd (snd (track_face_float
         (snd (set_angle_float (ServoController_default_float False) 1)) 400 240 640 480)))
       = 7205759403792794 / 2 ^ 52
   \<and> fl (max_speed (snd (set_angle_float (ServoController_default_float False) 1))
           * smoothing_factor (snd (set_angle_float (ServoController_default_float False) 1)))
       = 5404319552844595 / 2 ^ 53
   \<and> \<not> \<bar>current_angle (snd (snd (track_face_float
             (snd (set_angle_float (ServoController_default_float False) 1)) 400 240 640 480)))
          - current_angle (snd (set_angle_float (ServoController_default_float False) 1))\<bar>
        \<le> fl (max_speed (snd (set_angle_float (ServoController_default_float False) 1))
              * smoothing_factor (snd (set_angle_float (ServoController_default_float False) 1)))
   \<and> \<not> \<bar>current_angle (snd (snd (track_face_float
             (snd (set_angle_float (ServoController_default_float False) 1)) 400 240 640 480)))
          - current_angle (snd (set_angle_float (ServoController_default_float False) 1))\<bar>
        \<le> 2 * (3 / 10)"
  by code_simp

text \<open>
  C6, as amended. The offset that \<^verbatim>\<open>track_face\<close> compares with the dead zone is measured
  from \<^verbatim>\<open>frame_width // 2\<close>, the floor of half the width. When that offset is smaller in
  absolute value than the dead zone, the call returns with the controller as it was and
  no actuator command issued. For an even width this is the offset from
  \<^verbatim>\<open>frame_width / 2\<close>. Hence, with a positive dead zone, any number of ticks with the face
  exactly at half the frame width leave the controller as it was.
\<close>

theorem track_face_dead_zone:
  "(\<bar>real_of_int (face_x - frame_width div 2)\<bar> < dead_zone s \<longrightarrow>
      track_face s face_x face_y frame_width frame_height = (None, [], s))
   \<and> (even frame_width \<and> \<bar>real_of_int face_x - real_of_int frame_width / 2\<bar> < dead_zone s \<longrightarrow>
      track_face s face_x face_y frame_width frame_height = (None, [], s))
   \<and> (0 < dead_zone s \<and> 2 * face_x = frame_width \<longrightarrow>
      ((\<lambda>st. snd (snd (track_face st face_x face_y frame_width frame_height))) ^^ n) s = s)"
proof -
  have one: "\<bar>real_of_int (face_x - frame_width div 2)\<bar> < dead_zone st \<Longrightarrow>
      track_face st face_x face_y frame_width frame_height = (None, [], st)" for st
    by (simp add: track_face_def)
  have two: "track_face s face_x face_y frame_width frame_height = (None, [], s)"
    if ev: "even frame_width"
      and dz: "\<bar>real_of_int face_x - real_of_int frame_width / 2\<bar> < dead_zone s"
  proof -
    obtain k where k: "frame_width = 2 * k" using ev by (elim evenE)
    then have "real_of_int (face_x - frame_width div 2) = real_of_int face_x - real_of_int frame_width / 2"
      by simp
    then show ?thesis using dz one by simp
  qed
  have rep: "((\<lambda>st. snd (snd (track_face st face_x face_y frame_width frame_height))) ^^ n) s = s"
    if "0 < dead_zone s" "2 * face_x = frame_width"
  proof (induction n)
    case 0
    show ?case by simp
  next
    case (Suc n)
    have "\<bar>real_of_int (face_x - frame_width div 2)\<bar> < dead_zone s" using that by auto
    then show ?case using Suc by (simp add: one)
  qed
  show ?thesis using one two rep by blast
qed

text \<open>
  The specification's example (face at 330, frame 640 wide, offset 10) and five ticks
  with the face at the centre 320.
\<close>

theorem track_face_dead_zone_witness:
  "track_face (ServoController_default False) 330 240 640 480
      = (None, [], ServoController_default False)
   \<and> ((\<lambda>st. snd (snd (track_face st 320 240 640 480))) ^^ 5) (ServoController_default False)
      = ServoController_default False"
proof -
  have h1: "\<bar>real_of_int (330 - 640 div 2)\<bar> < dead_zone (ServoController_default False)"
    by (simp add: dflt)
  have h2: "0 < dead_zone (ServoController_default False) \<and> 2 * (320::int) = 640"
    by (simp add: dflt)
  show ?thesis
    using h1 h2
      track_face_dead_zone [of 330 640 "ServoController_default False" 240 480 5]
      track_face_dead_zone [of 320 640 "ServoController_default False" 240 480 5]
    by blast
qed

text \<open>
  For an odd width the offset from \<^verbatim>\<open>frame_width / 2\<close> does not decide. With the face at
  340 in a frame 641 wide that offset is 19.5, inside the dead zone of 20, and the
  specification's algorithm leaves the angle at 90; the code measures 20 from its centre
  320 and moves the angle to 89.4.
\<close>

theorem track_face_dead_zone_odd_width_counterexample:
  "\<bar>real_of_int 340 - real_of_int 641 / 2\<bar> < dead_zone (ServoController_default False)
   \<and> spec_compute_next_angle (ServoController_default False) 340 641
       = Inr (90, ServoController_default False)
   \<and> current_angle (ServoController_default False) = 90
   \<and> track_face (ServoController_default False) 340 240 641 480
       = (None, [PrintSimulation (447 / 5)], (ServoController_default False)\<lparr>current_angle := 447 / 5\<rparr>)"
  by code_simp

text \<open>
  C3, as amended. \<^verbatim>\<open>track_face\<close> has no check of the frame width and no
  \<^verbatim>\<open>InvalidFrameGeometry\<close>. Called with Python integers and \<open>frame_width \<le> 0\<close>: with
  width 0 and the face at least a dead zone away from 0, the division by the zero centre
  raises \<^verbatim>\<open>ZeroDivisionError\<close> before any command is issued, with the controller unchanged;
  with width 0 and the face inside the dead zone the call returns with nothing changed;
  with a negative width no error is raised: the centre \<^verbatim>\<open>frame_width // 2\<close> is negative,
  the dead zone is applied around it, and outside the dead zone the step is computed
  with that negative centre and passed to \<^verbatim>\<open>set_angle\<close>.
\<close>

theorem track_face_nonpositive_width:
  assumes "frame_width \<le> 0"
  shows "(frame_width = 0 \<and> dead_zone s \<le> \<bar>real_of_int face_x\<bar> \<longrightarrow>
            track_face s face_x face_y frame_width frame_height = (Some ZeroDivisionError, [], s))
         \<and> (frame_width = 0 \<and> \<bar>real_of_int face_x\<bar> < dead_zone s \<longrightarrow>
            track_face s face_x face_y frame_width frame_height = (None, [], s))
         \<and> (frame_width < 0 \<and> \<bar>real_of_int (face_x - frame_width div 2)\<bar> < dead_zone s \<longrightarrow>
            track_face s face_x face_y frame_width frame_height = (None, [], s))
         \<and> (frame_width < 0 \<and> dead_zone s \<le> \<bar>real_of_int (face_x - frame_width div 2)\<bar> \<longrightarrow>
            frame_width div 2 < 0
            \<and> track_face s face_x face_y frame_width frame_height =
                (None,
                 set_angle s
                   (current_angle s +
                      max (- max_speed s) (min (max_speed s)
                        (center_angle s
                           - (real_of_int (face_x - frame_width div 2) / real_of_int (frame_width div 2))
                               * (max_angle s - min_angle s) * (1 / 2)
                           - current_angle s))
                      * smoothing_factor s)))"
proof -
  have "frame_width < 0 \<Longrightarrow> frame_width div 2 < 0" by presburger
  then show ?thesis
    by (auto simp add: track_face_def Let_def split: prod.splits)
qed

text \<open>
  On the default controller with the hardware present: width 0 with the face at -50 and
  at 5; width -10 with the face at -4 (offset 1 from the centre -5) and at 300 (offset
  305, target 5580, step limited to 2, angle 90.6).
\<close>

theorem track_face_nonpositive_width_witness:
  "track_face (ServoController_default True) (- 50) 0 0 0
     = (Some ZeroDivisionError, [], ServoController_default True)
   \<and> track_face (ServoController_default True) 5 0 0 0 = (None, [], ServoController_default True)
   \<and> track_face (ServoController_default True) (- 4) 0 (- 10) 0 = (None, [], ServoController_default True)
   \<and> track_face (ServoController_default True) 300 0 (- 10) 0
       = (None, [ChangeDutyCycle (113 / 15), Sleep (1 / 10), ChangeDutyCycle 0],
          (ServoController_default True)\<lparr>current_angle := 453 / 5\<rparr>)"
proof -
  have h: "(0::int) \<le> 0" "(- 10::int) \<le> 0"
    "(0::int) = 0 \<and> dead_zone (ServoController_default True) \<le> \<bar>real_of_int (- 50)\<bar>"
    "(0::int) = 0 \<and> \<bar>real_of_int 5\<bar> < dead_zone (ServoController_default True)"
    "(- 10::int) < 0 \<and> \<bar>real_of_int (- 4 - (- 10) div 2)\<bar> < dead_zone (ServoController_default True)"
    "(- 10::int) < 0 \<and> dead_zone (ServoController_default True) \<le> \<bar>real_of_int (300 - (- 10) div 2)\<bar>"
    by (simp_all add: dflt)
  have e: "set_angle (ServoController_default True)
             (current_angle (ServoController_default True) +
                max (- max_speed (ServoController_default True))
                 (min (max_speed (ServoController_default True))
                   (center_angle (ServoController_default True)
                      - (real_of_int (300 - (- 10) div 2) / real_of_int ((- 10) div 2))
                          * (max_angle (ServoController_default True) - min_angle (ServoController_default True))
                          * (1 / 2)
                      - current_angle (ServoController_default True)))
                * smoothing_factor (ServoController_default True))
          = ([ChangeDutyCycle (113 / 15), Sleep (1 / 10), ChangeDutyCycle 0],
             (ServoController_default True)\<lparr>current_angle := 453 / 5\<rparr>)"
    by code_simp
  show ?thesis
    using h e
      track_face_nonpositive_width [OF h(1), where s = "ServoController_default True"
        and face_x = "- 50" and face_y = 0 and frame_height = 0]
      track_face_nonpositive_width [OF h(1), where s = "ServoController_default True"
        and face_x = 5 and face_y = 0 and frame_height = 0]
      track_face_nonpositive_width [OF h(2), where s = "ServoController_default True"
        and face_x = "- 4" and face_y = 0 and frame_height = 0]
      track_face_nonpositive_width [OF h(2), where s = "ServoController_default True"
        and face_x = 300 and face_y = 0 and frame_height = 0]
    by metis
qed

text \<open>
  With width 0 and the face at 100 the division by zero does occur; with width -10 the
  call raises nothing and moves the angle from 90 to 90.6.
\<close>

theorem track_face_zero_width_counterexample:
  "track_face (ServoController_default False) 100 0 0 0
     = (Some ZeroDivisionError, [], ServoController_default False)
   \<and> track_face (ServoController_default False) 100 0 (- 10) 0
     = (None, [PrintSimulation (453 / 5)], (ServoController_default False)\<lparr>current_angle := 453 / 5\<rparr>)
   \<and> current_angle (ServoController_default False) = 90"
  by code_simp

subsection \<open>The range of the angle\<close>

text \<open>
  C2. For a controller constructed with \<open>min_angle \<le> center_angle \<le> max_angle\<close>, every
  state reached by calls of \<^verbatim>\<open>set_angle\<close>, \<^verbatim>\<open>track_face\<close>, \<^verbatim>\<open>center_servo\<close> and
  \<^verbatim>\<open>cleanup\<close> has \<open>min_angle \<le> current_angle \<le> max_angle\<close>; in particular the angle
  that \<^verbatim>\<open>track_face\<close> leaves, on any inputs, lies within the limits.
\<close>

theorem current_angle_invariant:
  assumes "mn \<le> c" "c \<le> mx" "reachable (ServoController_init p mn mx c gpio) s"
  shows "min_angle s \<le> current_angle s \<and> current_angle s \<le> max_angle s
         \<and> min_angle s \<le> current_angle (snd (snd (track_face s fx fy fw fh)))
         \<and> current_angle (snd (snd (track_face s fx fy fw fh))) \<le> max_angle s"
proof -
  have "reachable (ServoController_init p mn mx c gpio) (snd (snd (track_face s fx fy fw fh)))"
    using assms(3) by (rule reachable.after_track_face)
  from reachable_in_range [OF assms(1,2) this] reachable_in_range [OF assms] show ?thesis
    by simp
qed

text \<open>
  The default limits: \<^verbatim>\<open>set_angle(500)\<close> is clamped to 180, and a tracking step from there
  stays within 0 and 180.
\<close>

theorem current_angle_invariant_witness:
  "reachable (ServoController_init 18 0 180 90 False)
      (snd (set_angle (ServoController_init 18 0 180 90 False) 500))
   \<and> current_angle (snd (set_angle (ServoController_init 18 0 180 90 False) 500)) = 180
   \<and> 0 \<le> current_angle (snd (snd (track_face
            (snd (set_angle (ServoController_init 18 0 180 90 False) 500)) 400 240 640 480)))
   \<and> current_angle (snd (snd (track_face
            (snd (set_angle (ServoController_init 18 0 180 90 False) 500)) 400 240 640 480))) \<le> 180"
proof -
  have r: "reachable (ServoController_init 18 0 180 90 False)
      (snd (set_angle (ServoController_init 18 0 180 90 False) 500))"
    by (rule reachable.after_set_angle) (rule reachable.constructed)
  have h: "(0::real) \<le> 90" "(90::real) \<le> 180" by simp_all
  have m: "min_angle (snd (set_angle (ServoController_init 18 0 180 90 False) 500)) = 0"
    "max_angle (snd (set_angle (ServoController_init 18 0 180 90 False) 500)) = 180"
    "current_angle (snd (set_angle (ServoController_init 18 0 180 90 False) 500)) = 180"
    by (simp_all add: set_angle_fields ServoController_init_def)
  show ?thesis
    using r m current_angle_invariant [OF h r, of 400 240 640 480] by simp
qed

text \<open>
  C9. In hardware mode, with limits \<open>0 \<le> min_angle \<le> max_angle \<le> 180\<close>, \<^verbatim>\<open>set_angle\<close>
  issues the duty cycle \<open>(angle / 180) * 10 + 2.5\<close> of the clamped angle, which it
  stores; the duty cycle lies between 0 and 100; after the hold of 0.1 seconds the duty
  cycle 0 follows. The angle 0 gives 2.5 and the angle 180 gives 12.5.
\<close>

theorem set_angle_duty_cycle:
  assumes "hardware_available s" "0 \<le> min_angle s" "min_angle s \<le> max_angle s" "max_angle s \<le> 180"
  shows "fst (set_angle s a) =
           [ChangeDutyCycle ((current_angle (snd (set_angle s a)) / 180) * 10 + 5 / 2),
            Sleep (1 / 10), ChangeDutyCycle 0]
         \<and> current_angle (snd (set_angle s a)) = max (min_angle s) (min (max_angle s) a)
         \<and> 0 \<le> (current_angle (snd (set_angle s a)) / 180) * 10 + 5 / 2
         \<and> (current_angle (snd (set_angle s a)) / 180) * 10 + 5 / 2 \<le> 100
         \<and> (current_angle (snd (set_angle s a)) = 0 \<longrightarrow>
               fst (set_angle s a) = [ChangeDutyCycle (5 / 2), Sleep (1 / 10), ChangeDutyCycle 0])
         \<and> (current_angle (snd (set_angle s a)) = 180 \<longrightarrow>
               fst (set_angle s a) = [ChangeDutyCycle (25 / 2), Sleep (1 / 10), ChangeDutyCycle 0])"
  using assms by (auto simp add: set_angle_def Let_def)

text \<open>
  The default controller with the hardware present, at 0, 180 and 45 degrees.
\<close>

theorem set_angle_duty_cycle_witness:
  "fst (set_angle (ServoController_default True) 0)
      = [ChangeDutyCycle (5 / 2), Sleep (1 / 10), ChangeDutyCycle 0]
   \<and> fst (set_angle (ServoController_default True) 180)
      = [ChangeDutyCycle (25 / 2), Sleep (1 / 10), ChangeDutyCycle 0]
   \<and> fst (set_angle (ServoController_default True) 45)
      = [ChangeDutyCycle 5, Sleep (1 / 10), ChangeDutyCycle 0]"
proof -
  have h: "hardware_available (ServoController_default True)"
    "0 \<le> min_angle (ServoController_default True)"
    "min_angle (ServoController_default True) \<le> max_angle (ServoController_default True)"
    "max_angle (ServoController_default True) \<le> 180"
    by (simp_all add: dflt)
  have c: "max (min_angle (ServoController_default True)) (min (max_angle (ServoController_default True)) 0) = 0"
    "max (min_angle (ServoController_default True)) (min (max_angle (ServoController_default True)) 180) = 180"
    "max (min_angle (ServoController_default True)) (min (max_angle (ServoController_default True)) 45) = 45"
    by (simp_all add: dflt)
  show ?thesis
    using set_angle_duty_cycle [OF h, of 0] set_angle_duty_cycle [OF h, of 180]
      set_angle_duty_cycle [OF h, of 45] c
    by simp
qed

subsection \<open>Choosing the face\<close>

text \<open>
  C8. \<open>largest_face\<close> gives no face exactly for the empty list. Otherwise it gives a box
  \<open>(x, y, w, h)\<close> of the list such that every box before it has an area \<open>w' * h'\<close>
  strictly smaller than \<open>w * h\<close> and every box after it an area of at most \<open>w * h\<close>:
  a box of maximum area, the first one among equals. Of \<open>(0,0,30,30)\<close> and
  \<open>(10,10,50,50)\<close> it gives the second; between a wider and a taller box of area 600 it
  gives the box of area 900. Being a function of the list, it changes nothing.
\<close>

theorem largest_face_first_max:
  "(largest_face faces = None \<longleftrightarrow> faces = [])
   \<and> (faces \<noteq> [] \<longrightarrow>
        (\<exists>pre x y w h post.
            largest_face faces = Some (x, y, w, h)
            \<and> faces = pre @ (x, y, w, h) # post
            \<and> (\<forall>(x', y', w', h')\<in>set pre. w' * h' < w * h)
            \<and> (\<forall>(x', y', w', h')\<in>set post. w' * h' \<le> w * h)))
   \<and> largest_face [(0, 0, 30, 30), (10, 10, 50, 50)] = Some (10, 10, 50, 50)
   \<and> largest_face [(0, 0, 60, 10), (5, 5, 30, 30), (0, 0, 10, 60)] = Some (5, 5, 30, 30)"
proof (cases faces)
  case Nil
  then show ?thesis by simp
next
  case (Cons f fs)
  obtain x y w h where m: "max_from face_key f fs = (x, y, w, h)" by (metis prod_cases4)
  from max_from_first_max [of f fs face_key] obtain pre post where
     s: "f # fs = pre @ (x, y, w, h) # post"
     and p: "\<forall>b\<in>set pre. face_key b < face_key (x, y, w, h)"
     and q: "\<forall>b\<in>set post. face_key b \<le> face_key (x, y, w, h)" unfolding m by blast
  have "\<forall>(x', y', w', h')\<in>set pre. w' * h' < w * h" using p by auto
  moreover have "\<forall>(x', y', w', h')\<in>set post. w' * h' \<le> w * h" using q by auto
  moreover have "largest_face faces = Some (x, y, w, h)" using Cons m by simp
  ultimately have "\<exists>pre x y w h post.
            largest_face faces = Some (x, y, w, h)
            \<and> faces = pre @ (x, y, w, h) # post
            \<and> (\<forall>(x', y', w', h')\<in>set pre. w' * h' < w * h)
            \<and> (\<forall>(x', y', w', h')\<in>set post. w' * h' \<le> w * h)"
    using s Cons by blast
  moreover have "largest_face [(0, 0, 30, 30), (10, 10, 50, 50)] = Some (10, 10, 50, 50)" by simp
  moreover have "largest_face [(0, 0, 60, 10), (5, 5, 30, 30), (0, 0, 10, 60)] = Some (5, 5, 30, 30)"
    by simp
  moreover have "largest_face faces \<noteq> None" "faces \<noteq> []" using Cons by simp_all
  ultimately show ?thesis by blast
qed

text \<open>
  Areas 1000, 1600, 1600 and 1000: the first of the two largest is chosen, which is
  neither the widest nor the tallest box.
\<close>

theorem largest_face_first_max_witness:
  "largest_face [(0, 0, 100, 10), (1, 1, 40, 40), (2, 2, 40, 40), (3, 3, 10, 100)] = Some (1, 1, 40, 40)
   \<and> largest_face [] = None"
proof -
  have ne: "[(0, 0, 100, 10), (1, 1, 40, 40), (2, 2, 40, 40), (3, 3, 10, 100)] \<noteq> ([] :: box list)"
    by simp
  from largest_face_first_max [of "[(0, 0, 100, 10), (1, 1, 40, 40), (2, 2, 40, 40), (3, 3, 10, 100)]"] ne
  obtain pre x y w h post where
    b: "largest_face [(0, 0, 100, 10), (1, 1, 40, 40), (2, 2, 40, 40), (3, 3, 10, 100)] = Some (x, y, w, h)"
    by blast
  have "(x, y, w, h) = (1, 1, 40, 40)" using b by simp
  then show ?thesis using b largest_face_first_max [of "[]"] by simp
qed

subsection \<open>The loop and its end\<close>

text \<open>
  C5, as amended. A pass of the loop that got a frame and at least one face, and in which
  \<^verbatim>\<open>track_face\<close> did not raise, emits \<^verbatim>\<open>servo_angle_update\<close> with the controller's
  \<^verbatim>\<open>current_angle\<close>, once, before \<^verbatim>\<open>frame_ready\<close>. A pass that got a frame without a
  face emits \<^verbatim>\<open>frame_ready\<close> only, and a pass without a frame emits no signal.
\<close>

theorem run_iteration_angle_update:
  "(ret \<and> faces \<noteq> [] \<and> fst (run_iteration sc ret shape faces) = None \<longrightarrow>
      (\<exists>evs. fst (snd (run_iteration sc ret shape faces))
          = evs @ [ServoAngleUpdate (current_angle (snd (snd (run_iteration sc ret shape faces)))),
                   FrameReady faces, Msleep 30]
          \<and> (\<forall>a. ServoAngleUpdate a \<notin> set evs)))
   \<and> (ret \<and> faces = [] \<longrightarrow>
        run_iteration sc ret shape faces = (None, [FrameReady [], Msleep 30], sc))
   \<and> (\<not> ret \<longrightarrow> run_iteration sc ret shape faces = (None, [Msleep 30], sc))"
proof -
  have tf: "\<forall>a. ServoAngleUpdate a \<notin> set (fst (snd (track_face s fx fy fw fh)))" for s fx fy fw fh
    by (simp add: track_face_def set_angle_def Let_def)
  show ?thesis
  proof (cases faces)
    case Nil
    then show ?thesis by (simp add: run_iteration_def)
  next
    case (Cons f fs)
    obtain x y w h where m: "max_from face_key f fs = (x, y, w, h)"
      by (metis prod_cases4)
    obtain err evs sc' where t: "track_face sc (x + w div 2) (y + h div 2) (snd shape) (fst shape)
        = (err, evs, sc')" by (metis prod_cases3)
    have "\<forall>a. ServoAngleUpdate a \<notin> set evs"
      using tf [of sc "x + w div 2" "y + h div 2" "snd shape" "fst shape"] t by simp
    then show ?thesis
      using Cons m t by (cases err) (simp_all add: run_iteration_def)
  qed
qed

text \<open>
  A pass with the two boxes of the specification's example, hardware present: the face
  centre is 35, the angle moves to 90.6 and is emitted.
\<close>

theorem run_iteration_angle_update_witness:
  "run_iteration (ServoController_default True) True (480, 640) [(0, 0, 30, 30), (10, 10, 50, 50)]
     = (None,
        [ChangeDutyCycle (113 / 15), Sleep (1 / 10), ChangeDutyCycle 0,
         ServoAngleUpdate (453 / 5),
         FrameReady [(0, 0, 30, 30), (10, 10, 50, 50)], Msleep 30],
        (ServoController_default True)\<lparr>current_angle := 453 / 5\<rparr>)
   \<and> (\<exists>evs. fst (snd (run_iteration (ServoController_default True) True (480, 640)
                        [(0, 0, 30, 30), (10, 10, 50, 50)]))
          = evs @ [ServoAngleUpdate (453 / 5), FrameReady [(0, 0, 30, 30), (10, 10, 50, 50)], Msleep 30])"
proof -
  have r: "run_iteration (ServoController_default True) True (480, 640) [(0, 0, 30, 30), (10, 10, 50, 50)]
     = (None,
        [ChangeDutyCycle (113 / 15), Sleep (1 / 10), ChangeDutyCycle 0,
         ServoAngleUpdate (453 / 5),
         FrameReady [(0, 0, 30, 30), (10, 10, 50, 50)], Msleep 30],
        (ServoController_default True)\<lparr>current_angle := 453 / 5\<rparr>)"
    by code_simp
  have h: "True \<and> [(0, 0, 30, 30), (10, 10, 50, 50)] \<noteq> ([] :: box list)
     \<and> fst (run_iteration (ServoController_default True) True (480, 640)
              [(0, 0, 30, 30), (10, 10, 50, 50)]) = None"
    by (simp add: r)
  have c: "current_angle (snd (snd (run_iteration (ServoController_default True) True (480, 640)
              [(0, 0, 30, 30), (10, 10, 50, 50)]))) = 453 / 5"
    by (simp add: r)
  from run_iteration_angle_update [of True "[(0, 0, 30, 30), (10, 10, 50, 50)]"
      "ServoController_default True" "(480, 640)"] h
  have "\<exists>evs. fst (snd (run_iteration (ServoController_default True) True (480, 640)
                        [(0, 0, 30, 30), (10, 10, 50, 50)]))
          = evs @ [ServoAngleUpdate (current_angle (snd (snd (run_iteration (ServoController_default True) True (480, 640)
              [(0, 0, 30, 30), (10, 10, 50, 50)])))), FrameReady [(0, 0, 30, 30), (10, 10, 50, 50)], Msleep 30]"
    by blast
  then show ?thesis unfolding c using r by blast
qed

text \<open>
  A pass with a frame and no face: no angle is emitted.
\<close>

theorem run_iteration_no_face_counterexample:
  "run_iteration (ServoController_default False) True (480, 640) []
     = (None, [FrameReady [], Msleep 30], ServoController_default False)
   \<and> ServoAngleUpdate (current_angle (ServoController_default False))
       \<notin> set [FrameReady [], Msleep 30]"
  by code_simp




end
